theory Spec2Isabelle
  imports Complex_Main
begin

section \<open>JavaScript numbers, as far as the timer uses them\<close>

text \<open>
  A JavaScript number is a double: a finite value, one of the two infinities, or NaN. The
  sign of zero is left out.
\<close>

datatype jsnum = Fin real | PosInf | NegInf | NaN

text \<open>\<open>2\<close> to the power of a whole number.\<close>

definition pow2 :: "int \<Rightarrow> real" where
  "pow2 j = (if 0 \<le> j then 2 ^ nat j else 1 / 2 ^ nat (- j))"

text \<open>The nearest whole number, a tie going to the even one.\<close>

definition round_even :: "real \<Rightarrow> int" where
  "round_even q =
     (if q - of_int \<lfloor>q\<rfloor> < 1 / 2 then \<lfloor>q\<rfloor>
      else if 1 / 2 < q - of_int \<lfloor>q\<rfloor> then \<lfloor>q\<rfloor> + 1
      else if even \<lfloor>q\<rfloor> then \<lfloor>q\<rfloor> else \<lfloor>q\<rfloor> + 1)"

text \<open>
  The double that stands for a real number: the result of every arithmetic operation is
  rounded so (binary64, round to nearest, ties to even). With \<open>e\<close> the exponent of \<open>x\<close>,
  not below \<open>-1022\<close>, doubles are \<open>2^(e-52)\<close> apart around \<open>x\<close>; what rounds to \<open>2^1024\<close> or
  beyond is an infinity.
\<close>

definition fl :: "real \<Rightarrow> jsnum" where
  "fl x =
     (if x = 0 then Fin 0
      else
        (let e = max \<lfloor>log 2 \<bar>x\<bar>\<rfloor> (- 1022);
             u = pow2 (e - 52);
             y = of_int (round_even (x / u)) * u
         in if 2 ^ 1024 \<le> \<bar>y\<bar> then (if 0 < x then PosInf else NegInf) else Fin y))"

text \<open>\<open>a * b\<close> on numbers: the product, rounded.\<close>

fun js_mul :: "jsnum \<Rightarrow> jsnum \<Rightarrow> jsnum" where
  "js_mul (Fin a) (Fin b) = fl (a * b)"
| "js_mul NaN _ = NaN"
| "js_mul _ NaN = NaN"
| "js_mul (Fin a) PosInf = (if a = 0 then NaN else if 0 < a then PosInf else NegInf)"
| "js_mul (Fin a) NegInf = (if a = 0 then NaN else if 0 < a then NegInf else PosInf)"
| "js_mul PosInf (Fin b) = (if b = 0 then NaN else if 0 < b then PosInf else NegInf)"
| "js_mul NegInf (Fin b) = (if b = 0 then NaN else if 0 < b then NegInf else PosInf)"
| "js_mul PosInf PosInf = PosInf"
| "js_mul PosInf NegInf = NegInf"
| "js_mul NegInf PosInf = NegInf"
| "js_mul NegInf NegInf = PosInf"

text \<open>
  \<open>a / b\<close> on numbers: the quotient, rounded; a finite value over zero is an infinity, zero
  over zero is NaN.
\<close>

fun js_div :: "jsnum \<Rightarrow> jsnum \<Rightarrow> jsnum" where
  "js_div (Fin a) (Fin b) =
     (if b = 0 then (if a = 0 then NaN else if 0 < a then PosInf else NegInf)
      else fl (a / b))"
| "js_div NaN _ = NaN"
| "js_div _ NaN = NaN"
| "js_div (Fin a) PosInf = Fin 0"
| "js_div (Fin a) NegInf = Fin 0"
| "js_div PosInf (Fin b) = (if 0 \<le> b then PosInf else NegInf)"
| "js_div NegInf (Fin b) = (if 0 \<le> b then NegInf else PosInf)"
| "js_div PosInf PosInf = NaN"
| "js_div PosInf NegInf = NaN"
| "js_div NegInf PosInf = NaN"
| "js_div NegInf NegInf = NaN"



text \<open>
  \<open>Math.round\<close> on a finite value: the nearest integer, a tie going up
  (\<open>Math.round(2.5) = 3\<close>, \<open>Math.round(-2.5) = -2\<close>).
\<close>

definition Math_round :: "real \<Rightarrow> int" where
  "Math_round x = \<lfloor>x + 1 / 2\<rfloor>"

text \<open>
  What the component keeps in \<open>secondsLeft\<close> and in \<open>endRef\<close> is a whole number or
  Infinity: \<open>300\<close>, \<open>0\<close>, results of \<open>Math.round\<close>, and \<open>Date.now()\<close> plus a thousand times
  such a number. Whole numbers are kept as integers, and the sums, differences and
  products of times as those of integers, which is what they are in doubles below \<open>2^53\<close>.
\<close>

datatype jswhole = Whole int | Infinity

text \<open>The number that it is.\<close>

fun num :: "jswhole \<Rightarrow> jsnum" where
  "num (Whole k) = Fin (of_int k)"
| "num Infinity = PosInf"

text \<open>\<open>x <= 0\<close> and \<open>x > 0\<close>.\<close>

fun le_zero :: "jswhole \<Rightarrow> bool" where
  "le_zero (Whole k) = (k \<le> 0)"
| "le_zero Infinity = False"

fun positive :: "jswhole \<Rightarrow> bool" where
  "positive (Whole k) = (0 < k)"
| "positive Infinity = True"

text \<open>\<open>Date.now() + secondsLeft * 1000\<close>, at time \<open>now\<close>.\<close>

fun deadline :: "int \<Rightarrow> jswhole \<Rightarrow> jswhole" where
  "deadline now (Whole k) = Whole (now + k * 1000)"
| "deadline now Infinity = Infinity"

text \<open>
  \<open>Math.max(0, Math.round((endRef.current - Date.now()) / 1000))\<close>, at time \<open>now\<close>; a \<open>null\<close>
  in \<open>endRef.current\<close> counts as \<open>0\<close>.
\<close>

fun remain_at :: "jswhole option \<Rightarrow> int \<Rightarrow> jswhole" where
  "remain_at None now = Whole (max 0 (Math_round (of_int (0 - now) / 1000)))"
| "remain_at (Some (Whole t)) now = Whole (max 0 (Math_round (of_int (t - now) / 1000)))"
| "remain_at (Some Infinity) now = Infinity"

section \<open>The state of the App component\<close>

text \<open>
  The text of the minutes field (\<open>minutesInput\<close>) is used in two ways only: as a truth
  value, where the empty string is false and every other string true, and under
  \<open>Number(...)\<close>. The field is therefore \<open>None\<close> for the empty string, \<open>Some (Fin x)\<close> for a
  text that reads as the decimal number \<open>x\<close>, and \<open>Some NaN\<close> for a text that is no number.
\<close>

type_synonym text_field = "jsnum option"

text \<open>
  \<open>Number(minutesInput)\<close>: the empty string is \<open>0\<close>, and a decimal number is the double
  nearest to it.
\<close>

definition Number :: "text_field \<Rightarrow> jsnum" where
  "Number t = (case t of None \<Rightarrow> Fin 0 | Some (Fin x) \<Rightarrow> fl x | Some v \<Rightarrow> v)"

text \<open>\<open>Number(minutesInput || d)\<close>: \<open>d\<close> stands in for the empty string.\<close>

definition Number_or :: "text_field \<Rightarrow> jsnum \<Rightarrow> jsnum" where
  "Number_or t d = (case t of None \<Rightarrow> d | Some v \<Rightarrow> Number t)"

text \<open>
  The React state (\<open>secondsLeft\<close>, \<open>running\<close>, \<open>showControls\<close>, \<open>minutesInput\<close>), the two
  refs (\<open>endRef\<close>, \<open>timerRef\<close>, with \<open>None\<close> for \<open>null\<close>) and what the platform keeps for
  \<open>setInterval\<close>: the handles of the intervals that are live and the next handle it gives
  out. Times are milliseconds, as \<open>Date.now()\<close> returns them.
\<close>

record app_state =
  secondsLeft :: jswhole
  running :: bool
  endRef :: "jswhole option"
  timerRef :: "nat option"
  showControls :: bool
  minutesInput :: text_field
  intervals :: "nat set"
  nextHandle :: nat

text \<open>
  The component after its first render: the default of five minutes, nothing running, the
  panel closed, the field empty. The effects of that render find no interval to clear.
\<close>

definition init :: app_state where
  "init = \<lparr>secondsLeft = Whole 300, running = False, endRef = None, timerRef = None,
     showControls = False, minutesInput = None, intervals = {}, nextHandle = 1\<rparr>"

section \<open>The interval timer and the effect on \<open>running\<close>\<close>

text \<open>\<open>clearInterval(h)\<close>: the interval is live no more; \<open>null\<close> and dead handles do nothing.\<close>

definition clearInterval :: "nat option \<Rightarrow> app_state \<Rightarrow> app_state" where
  "clearInterval h s = (case h of None \<Rightarrow> s | Some i \<Rightarrow> s\<lparr>intervals := intervals s - {i}\<rparr>)"

text \<open>\<open>setInterval(callback, 250)\<close>: a fresh handle, live from now on.\<close>

definition setInterval :: "app_state \<Rightarrow> nat \<times> app_state" where
  "setInterval s =
     (nextHandle s, s\<lparr>intervals := insert (nextHandle s) (intervals s),
                       nextHandle := Suc (nextHandle s)\<rparr>)"

text \<open>\<open>!endRef.current\<close>: \<open>null\<close> and \<open>0\<close> are false.\<close>

definition falsy :: "jswhole option \<Rightarrow> bool" where
  "falsy e = (e = None \<or> e = Some (Whole 0))"

text \<open>The body of \<open>useEffect(..., [running])\<close>, run at time \<open>now\<close>.\<close>

definition effect_running :: "int \<Rightarrow> app_state \<Rightarrow> app_state" where
  "effect_running now s =
     (if running s then
        (let s1 = (if falsy (endRef s) then s\<lparr>endRef := Some (deadline now (secondsLeft s))\<rparr>
                   else s);
             s2 = clearInterval (timerRef s1) s1;
             (h, s3) = setInterval s2
         in s3\<lparr>timerRef := Some h\<rparr>)
      else clearInterval (timerRef s) s)"

text \<open>The cleanup the effect returns.\<close>

definition cleanup_running :: "app_state \<Rightarrow> app_state" where
  "cleanup_running s = clearInterval (timerRef s) s"

text \<open>
  After a handler has run, React renders again; when \<open>running\<close> is not what it was at the
  last render, the cleanup of the effect runs and then its body. \<open>was\<close> is \<open>running\<close> as of
  the last render.
\<close>

definition commit :: "bool \<Rightarrow> int \<Rightarrow> app_state \<Rightarrow> app_state" where
  "commit was now s =
     (if running s \<noteq> was then effect_running now (cleanup_running s) else s)"

text \<open>The callback given to \<open>setInterval\<close>, run at time \<open>now\<close>.\<close>

definition tick :: "int \<Rightarrow> app_state \<Rightarrow> app_state" where
  "tick now s =
     (let remain = remain_at (endRef s) now;
          s1 = s\<lparr>secondsLeft := remain\<rparr>
      in if le_zero remain
         then (clearInterval (timerRef s1) s1)\<lparr>running := False, endRef := None\<rparr>
         else s1)"

text \<open>
  The platform fires a live interval at time \<open>now\<close>: its callback runs, and React renders.
  Every interval the component creates has the same callback, which reads the refs only;
  with no live interval nothing runs.
\<close>

definition timer_fires :: "int \<Rightarrow> app_state \<Rightarrow> app_state" where
  "timer_fires now s =
     (if intervals s = {} then s else commit (running s) now (tick now s))"

section \<open>Control actions\<close>

text \<open>
  A handler returns what it passed to \<open>alert\<close>, if it called it, and the state it leaves.
  In \<open>applyMinutes\<close>, \<open>n * 60\<close> for a finite \<open>n > 0\<close> is a finite number or Infinity, and so
  is \<open>Math.round\<close> of it.
\<close>

definition applyMinutes :: "app_state \<Rightarrow> string option \<times> app_state" where
  "applyMinutes s =
     (case Number (minutesInput s) of
        Fin n \<Rightarrow>
          if n \<le> 0 then (Some ''Enter minutes > 0'', s)
          else (None,
                s\<lparr>secondsLeft :=
                    (case js_mul (Fin n) (Fin 60) of
                       Fin d \<Rightarrow> Whole (Math_round d)
                     | _ \<Rightarrow> Infinity),
                  running := False, endRef := None\<rparr>)
      | _ \<Rightarrow> (Some ''Enter minutes > 0'', s))"

definition startTimer :: "int \<Rightarrow> app_state \<Rightarrow> string option \<times> app_state" where
  "startTimer now s =
     (if le_zero (secondsLeft s) then (Some ''Set minutes first'', s)
      else (None, s\<lparr>showControls := False,
                      endRef := Some (deadline now (secondsLeft s)),
                      running := True\<rparr>))"

definition pauseTimer :: "app_state \<Rightarrow> app_state" where
  "pauseTimer s = (clearInterval (timerRef s) s)\<lparr>running := False, endRef := None\<rparr>"

definition resumeTimer :: "int \<Rightarrow> app_state \<Rightarrow> app_state" where
  "resumeTimer now s =
     (if le_zero (secondsLeft s) then s
      else s\<lparr>endRef := Some (deadline now (secondsLeft s)), running := True\<rparr>)"

definition resetTimer :: "app_state \<Rightarrow> app_state" where
  "resetTimer s =
     (clearInterval (timerRef s) s)\<lparr>running := False, endRef := None, secondsLeft := Whole 0\<rparr>"

text \<open>
  A click on a button: the handler, then the render that follows it. The effect reads the
  clock only where \<open>running\<close> is true, which it is not after Set, Pause and Reset.
\<close>

definition click_set :: "app_state \<Rightarrow> app_state" where
  "click_set s = commit (running s) 0 (snd (applyMinutes s))"

definition click_start :: "int \<Rightarrow> app_state \<Rightarrow> app_state" where
  "click_start now s = commit (running s) now (snd (startTimer now s))"

definition click_pause :: "app_state \<Rightarrow> app_state" where
  "click_pause s = commit (running s) 0 (pauseTimer s)"

definition click_resume :: "int \<Rightarrow> app_state \<Rightarrow> app_state" where
  "click_resume now s = commit (running s) now (resumeTimer now s)"

definition click_reset :: "app_state \<Rightarrow> app_state" where
  "click_reset s = commit (running s) 0 (resetTimer s)"

section \<open>What the component renders\<close>

text \<open>
  The denominator of the ring, \<open>Number(minutesInput || secondsLeft / 60) * 60\<close>, and the
  duration under the warning, \<open>Number(minutesInput || 5) * 60\<close>: both read the minutes
  field as it stands at the render.
\<close>

definition progress_total :: "app_state \<Rightarrow> jsnum" where
  "progress_total s =
     js_mul (Number_or (minutesInput s) (js_div (num (secondsLeft s)) (Fin 60))) (Fin 60)"

definition warning_total :: "app_state \<Rightarrow> jsnum" where
  "warning_total s = js_mul (Number_or (minutesInput s) (Fin 5)) (Fin 60)"




section \<open>Runs of the component\<close>

text \<open>
  What can happen to the component: the operator clicks the gear, types into the minutes
  field or clicks a button of the panel, or a live interval fires. The field and the
  buttons are rendered only while \<open>showControls\<close> is true.
\<close>

datatype event =
    ClickGear
  | TypeMinutes text_field
  | ClickSet
  | ClickStart int
  | ClickPause
  | ClickResume int
  | ClickReset
  | TimerFires int

fun step :: "event \<Rightarrow> app_state \<Rightarrow> app_state" where
  "step ClickGear s = s\<lparr>showControls := \<not> showControls s\<rparr>"
| "step (TypeMinutes t) s = (if showControls s then s\<lparr>minutesInput := t\<rparr> else s)"
| "step ClickSet s = (if showControls s then click_set s else s)"
| "step (ClickStart now) s = (if showControls s then click_start now s else s)"
| "step ClickPause s = (if showControls s then click_pause s else s)"
| "step (ClickResume now) s = (if showControls s then click_resume now s else s)"
| "step ClickReset s = (if showControls s then click_reset s else s)"
| "step (TimerFires now) s = timer_fires now s"

fun run :: "event list \<Rightarrow> app_state \<Rightarrow> app_state" where
  "run [] s = s"
| "run (e # es) s = run es (step e s)"

inductive reachable :: "app_state \<Rightarrow> bool" where
  reachable_init: "reachable init"
| reachable_step: "reachable s \<Longrightarrow> reachable (step e s)"


text \<open>
  The invariant of the runs: a live interval is the one \<open>timerRef\<close> holds; while running
  there is one, a target and time left; while not running there is none and no target.
\<close>

definition consistent :: "app_state \<Rightarrow> bool" where
  "consistent s =
     (intervals s \<subseteq> set_option (timerRef s) \<and>
      (running s \<longrightarrow>
         positive (secondsLeft s) \<and> endRef s \<noteq> None \<and> intervals s \<noteq> {}) \<and>
      (\<not> running s \<longrightarrow> intervals s = {} \<and> endRef s = None))"

section \<open>The upload server\<close>

text \<open>
  A JavaScript string is its sequence of UTF-16 code units. \<open>js\<close> writes an ASCII literal.
\<close>

type_synonym jsstring = "nat list"

definition js :: "string \<Rightarrow> jsstring" where
  "js cs = map of_char cs"

text \<open>What \<open>\s\<close> matches in a regular expression: white space and line terminators.\<close>

definition white_space :: "nat \<Rightarrow> bool" where
  "white_space c =
     (c \<in> {9, 10, 11, 12, 13, 32, 160, 5760, 8232, 8233, 8239, 8287, 12288, 65279}
      \<or> (8192 \<le> c \<and> c \<le> 8202))"

text \<open>\<open>name.replace(/\s+/g, '-')\<close>: every maximal run of white space becomes one hyphen.\<close>

function replace_spaces :: "jsstring \<Rightarrow> jsstring" where
  "replace_spaces [] = []"
| "replace_spaces (c # cs) =
     (if white_space c then 45 # replace_spaces (dropWhile white_space cs)
      else c # replace_spaces cs)"
  by pat_completeness auto
termination
  by (relation "measure length") (auto simp: less_Suc_eq_le length_dropWhile_le)

text \<open>
  A whole number as a string, as \<open>+\<close> with a string makes it (in decimal, which is how
  numbers below \<open>10^21\<close> are written).
\<close>

fun digits :: "nat \<Rightarrow> jsstring" where
  "digits n = (if n < 10 then [48 + n] else digits (n div 10) @ [48 + n mod 10])"

declare digits.simps [simp del]

definition ToString :: "int \<Rightarrow> jsstring" where
  "ToString n = (if n < 0 then 45 # digits (nat (- n)) else digits (nat n))"

text \<open>The \<open>filename\<close> callback of the disk storage, called at time \<open>now\<close>.\<close>

definition storage_filename :: "int \<Rightarrow> jsstring \<Rightarrow> jsstring" where
  "storage_filename now originalname = ToString now @ js ''-'' @ replace_spaces originalname"

text \<open>
  A file of the request: the field it is in and its original name. A part of the request
  that has no file name is not a file.
\<close>

record file_part =
  fieldname :: string
  originalname :: jsstring

record uploaded_file =
  original :: jsstring
  filename :: jsstring

text \<open>
  \<open>upload.single('image')\<close> is multer's. It takes the files of the request in their order
  and lets one file through, in the field \<open>image\<close>: a file in another field, and a second
  file in the field \<open>image\<close>, end the upload with the error \<open>LIMIT_UNEXPECTED_FILE\<close>. A file
  that is let through is stored under the name the storage gives it. \<open>left\<close> is the number
  of files the field \<open>image\<close> may still take.
\<close>

datatype multer_error = LIMIT_UNEXPECTED_FILE string

fun accept_files :: "int \<Rightarrow> nat \<Rightarrow> file_part list \<Rightarrow> multer_error + uploaded_file list" where
  "accept_files now left [] = Inr []"
| "accept_files now left (p # ps) =
     (if fieldname p \<noteq> ''image'' \<or> left = 0 then Inl (LIMIT_UNEXPECTED_FILE (fieldname p))
      else
        (case accept_files now (left - 1) ps of
           Inl e \<Rightarrow> Inl e
         | Inr fs \<Rightarrow>
             Inr (\<lparr>original = originalname p,
                   filename = storage_filename now (originalname p)\<rparr> # fs)))"

text \<open>
  What the middleware leaves in \<open>req.file\<close>: the stored file, or nothing (\<open>undefined\<close>) when
  the request had no file.
\<close>

definition upload_single :: "int \<Rightarrow> file_part list \<Rightarrow> multer_error + uploaded_file option" where
  "upload_single now parts =
     (case accept_files now 1 parts of
        Inl e \<Rightarrow> Inl e
      | Inr fs \<Rightarrow> Inr (case fs of [] \<Rightarrow> None | f # _ \<Rightarrow> Some f))"

text \<open>
  A response: its status, and the members of its JSON object or, from the error handler
  of Express, an error page.
\<close>

datatype body = Json "(string \<times> jsstring) list" | ErrorPage

record response =
  status :: nat
  body :: body

text \<open>The handler of \<open>POST /upload\<close>, given \<open>req.file\<close>; \<open>res.json\<close> answers with status 200.\<close>

definition upload_handler :: "uploaded_file option \<Rightarrow> response" where
  "upload_handler req_file =
     (case req_file of
        None \<Rightarrow> \<lparr>status = 400, body = Json [(''error'', js ''No file'')]\<rparr>
      | Some f \<Rightarrow> \<lparr>status = 200, body = Json [(''filename'', js ''uploads/'' @ filename f)]\<rparr>)"

text \<open>
  The route. An error of the middleware goes to the error handler of Express, which
  answers with status 500, and the handler of the route is not called.
\<close>

definition post_upload :: "int \<Rightarrow> file_part list \<Rightarrow> response" where
  "post_upload now parts =
     (case upload_single now parts of
        Inl e \<Rightarrow> \<lparr>status = 500, body = ErrorPage\<rparr>
      | Inr req_file \<Rightarrow> upload_handler req_file)"

section \<open>Doubles\<close>

lemma pow2_powr: "pow2 j = 2 powr of_int j"
  by (simp add: pow2_def powr_real_of_int inverse_eq_divide)

lemma pow2_pos: "0 < pow2 j"
  by (simp add: pow2_powr)

lemma pow2_add: "pow2 (i + j) = pow2 i * pow2 j"
  by (simp add: pow2_powr powr_add)

lemma pow2_nonneg: "0 \<le> j \<Longrightarrow> pow2 j = of_int (2 ^ nat j)"
  by (simp add: pow2_def)

lemma pow2_mono: "i \<le> j \<Longrightarrow> pow2 i \<le> pow2 j"
  by (simp add: pow2_powr)

lemma pow2_52: "pow2 52 = 2 ^ 52"
  by (simp add: pow2_def)

lemma pow2_53: "pow2 53 = 2 ^ 53"
  by (simp add: pow2_def)

lemma pow2_1024: "pow2 1024 = 2 ^ 1024"
  by (simp add: pow2_def)

lemma pow2_1023: "pow2 1023 < 2 ^ 1024"
  by (simp add: pow2_def)

lemma round_even_of_int: "round_even (of_int m) = m"
  by (simp add: round_even_def)

lemma round_even_bounds: "\<lfloor>q\<rfloor> \<le> round_even q \<and> round_even q \<le> \<lfloor>q\<rfloor> + 1"
  by (simp add: round_even_def)

lemma exponent_eq:
  assumes "pow2 e \<le> \<bar>x\<bar>" and "\<bar>x\<bar> < pow2 (e + 1)"
  shows "\<lfloor>log 2 \<bar>x\<bar>\<rfloor> = e"
proof -
  have pos: "0 < \<bar>x\<bar>"
    using assms(1) pow2_pos[of e] by linarith
  have "2 powr of_int e \<le> \<bar>x\<bar> \<and> \<bar>x\<bar> < 2 powr (of_int e + 1)"
    using assms by (simp add: pow2_powr)
  then show ?thesis
    using floor_log_eq_powr_iff[of "\<bar>x\<bar>" 2 e] pos by simp
qed

lemma exponent_less:
  assumes "x \<noteq> 0" and "\<bar>x\<bar> < pow2 k"
  shows "\<lfloor>log 2 \<bar>x\<bar>\<rfloor> < k"
proof -
  have "log 2 \<bar>x\<bar> < of_int k"
    using assms by (simp add: pow2_powr log_less_iff)
  then show ?thesis
    by (simp add: floor_less_iff)
qed

text \<open>A number with at most 53 bits and an exponent in range is a double.\<close>

lemma fl_exact:
  assumes x: "x = of_int n * pow2 k" and n: "\<bar>n\<bar> < 2 ^ 53" and k: "- 1074 \<le> k" "k \<le> 970"
  shows "fl x = Fin x"
proof (cases "x = 0")
  case True
  then show ?thesis by (simp add: fl_def)
next
  case False
  define e where "e = max \<lfloor>log 2 \<bar>x\<bar>\<rfloor> (- 1022)"
  define u where "u = pow2 (e - 52)"
  have "\<bar>x\<bar> = of_int \<bar>n\<bar> * pow2 k"
    using pow2_pos[of k] by (simp add: x abs_mult)
  also have "\<dots> < of_int (2 ^ 53) * pow2 k"
    using n pow2_pos[of k] by (intro mult_strict_right_mono) simp_all
  also have "\<dots> = pow2 (53 + k)"
    by (simp add: pow2_add pow2_53)
  finally have lt: "\<bar>x\<bar> < pow2 (53 + k)" .
  have "\<lfloor>log 2 \<bar>x\<bar>\<rfloor> < 53 + k"
    using False lt by (rule exponent_less)
  then have ek: "e - 52 \<le> k"
    using k by (simp add: e_def)
  define d where "d = k - (e - 52)"
  have d: "0 \<le> d" using ek by (simp add: d_def)
  have "pow2 k = pow2 d * u"
    unfolding u_def d_def using pow2_add[of "k - (e - 52)" "e - 52"] by simp
  then have xu: "x = of_int (n * 2 ^ nat d) * u"
    by (simp add: x pow2_nonneg[OF d])
  have upos: "0 < u" by (simp add: u_def pow2_pos)
  have "x / u = of_int (n * 2 ^ nat d)"
    using upos by (simp add: xu)
  then have r: "of_int (round_even (x / u)) * u = x"
    using xu by (simp only: round_even_of_int)
  have "pow2 (53 + k) \<le> pow2 1023"
    using k by (intro pow2_mono) simp
  also have "\<dots> < 2 ^ 1024"
    by (rule pow2_1023)
  finally have "\<bar>x\<bar> < 2 ^ 1024"
    using lt by linarith
  then show ?thesis
    using False r unfolding fl_def e_def[symmetric] Let_def u_def[symmetric]
    by (simp only: if_False not_le[symmetric] simp_thms)
qed

lemma fl_zero: "fl 0 = Fin 0"
  by (simp add: fl_def)

lemma fl_of_int: "\<bar>k\<bar> < 2 ^ 53 \<Longrightarrow> fl (of_int k) = Fin (of_int k)"
  using fl_exact[of "of_int k" k 0] by (simp add: pow2_def)


text \<open>Rounding a number whose exponent is known.\<close>

lemma fl_eval_top:
  assumes lo: "pow2 (j + 52) \<le> \<bar>x\<bar>" and hi: "\<bar>x\<bar> < pow2 (j + 53)"
    and j: "- 1074 \<le> j"
    and below: "\<bar>of_int (round_even (x / pow2 j)) * pow2 j\<bar> < 2 ^ 1024"
  shows "fl x = Fin (of_int (round_even (x / pow2 j)) * pow2 j)"
proof -
  have nz: "x \<noteq> 0"
    using lo pow2_pos[of "j + 52"] by auto
  have "\<lfloor>log 2 \<bar>x\<bar>\<rfloor> = j + 52"
    using lo hi by (intro exponent_eq) (simp_all add: add.commute add.left_commute)
  then have e: "max \<lfloor>log 2 \<bar>x\<bar>\<rfloor> (- 1022) - 52 = j"
    using j by simp
  have "\<not> 2 ^ 1024 \<le> \<bar>of_int (round_even (x / pow2 j)) * pow2 j\<bar>"
    using below by linarith
  then show ?thesis
    using nz unfolding fl_def Let_def e
    by (simp only: if_False)
qed

lemma fl_eval:
  assumes lo: "pow2 (j + 52) \<le> \<bar>x\<bar>" and hi: "\<bar>x\<bar> < pow2 (j + 53)"
    and j: "- 1074 \<le> j" "j \<le> 970"
  shows "fl x = Fin (of_int (round_even (x / pow2 j)) * pow2 j)"
proof -
  let ?q = "x / pow2 j"
  have q: "\<bar>?q\<bar> < 2 ^ 53"
  proof -
    have "\<bar>?q\<bar> = \<bar>x\<bar> / pow2 j"
      using pow2_pos[of j] by simp
    also have "\<dots> < pow2 (j + 53) / pow2 j"
      using hi pow2_pos[of j] by (simp add: divide_strict_right_mono)
    also have "\<dots> = 2 ^ 53"
      using pow2_pos[of j] by (simp add: pow2_add pow2_53)
    finally show ?thesis .
  qed
  have "\<bar>of_int (round_even ?q) :: real\<bar> \<le> 2 ^ 53"
  proof -
    have "- (2 ^ 53) < ?q" and "?q < 2 ^ 53"
      using q by linarith+
    then have "- (2 ^ 53) \<le> \<lfloor>?q\<rfloor>" and "\<lfloor>?q\<rfloor> < 2 ^ 53"
      by (simp_all add: le_floor_iff floor_less_iff)
    with round_even_bounds[of ?q]
    have "- (2 ^ 53) \<le> round_even ?q \<and> round_even ?q \<le> 2 ^ 53"
      by linarith
    then have "\<bar>round_even ?q\<bar> \<le> 2 ^ 53" by linarith
    then have "of_int \<bar>round_even ?q\<bar> \<le> (of_int (2 ^ 53) :: real)"
      by (simp only: of_int_le_iff)
    then show ?thesis by simp
  qed
  then have "\<bar>of_int (round_even ?q) * pow2 j\<bar> \<le> 2 ^ 53 * pow2 j"
    using pow2_pos[of j] by (simp add: abs_mult)
  also have "\<dots> = pow2 (53 + j)"
    by (simp add: pow2_add pow2_53)
  also have "\<dots> \<le> pow2 1023"
    using j by (intro pow2_mono) simp
  also have "\<dots> < 2 ^ 1024"
    by (rule pow2_1023)
  finally have "\<bar>of_int (round_even ?q) * pow2 j\<bar> < 2 ^ 1024" .
  with lo hi j(1) show ?thesis
    by (rule fl_eval_top)
qed

text \<open>What is \<open>2^1024\<close> or more rounds to Infinity.\<close>

lemma fl_overflow:
  assumes "2 ^ 1024 \<le> x"
  shows "fl x = PosInf"
proof -
  have pos: "0 < x"
    using assms by (smt (verit) zero_less_power)
  define e where "e = \<lfloor>log 2 \<bar>x\<bar>\<rfloor>"
  have "pow2 1024 \<le> \<bar>x\<bar>"
    using assms pos by (simp only: pow2_1024 abs_of_pos)
  then have "of_int 1024 \<le> log 2 \<bar>x\<bar>"
    using pos by (simp add: pow2_powr le_log_iff)
  then have e: "1024 \<le> e"
    unfolding e_def by (simp add: le_floor_iff)
  have le: "pow2 e \<le> x"
  proof -
    have "of_int e \<le> log 2 \<bar>x\<bar>"
      unfolding e_def by simp
    then show ?thesis
      using pos by (simp add: pow2_powr le_log_iff)
  qed
  define u where "u = pow2 (e - 52)"
  have upos: "0 < u" unfolding u_def by (rule pow2_pos)
  have eu: "pow2 e = 2 ^ 52 * u"
    unfolding u_def using pow2_add[of 52 "e - 52"] by (simp add: pow2_52)
  then have "2 ^ 52 \<le> x / u"
    using le upos by (simp add: pos_le_divide_eq)
  then have "2 ^ 52 \<le> \<lfloor>x / u\<rfloor>"
    by (simp add: le_floor_iff)
  then have "2 ^ 52 \<le> round_even (x / u)"
    using round_even_bounds[of "x / u"] by linarith
  then have "(of_int (2 ^ 52) :: real) \<le> of_int (round_even (x / u))"
    by (simp only: of_int_le_iff)
  then have "of_int (2 ^ 52) * u \<le> of_int (round_even (x / u)) * u"
    using upos by (simp only: mult_le_cancel_right_pos)
  then have "pow2 e \<le> of_int (round_even (x / u)) * u"
    by (simp add: eu)
  moreover have "pow2 1024 \<le> pow2 e"
    using e by (rule pow2_mono)
  ultimately have "2 ^ 1024 \<le> of_int (round_even (x / u)) * u"
    by (simp only: pow2_1024)
  then have big: "2 ^ 1024 \<le> \<bar>of_int (round_even (x / u)) * u\<bar>"
    by linarith
  have m: "max e (- 1022) = e" using e by simp
  have nz: "x \<noteq> 0" using pos by simp
  show ?thesis
    unfolding fl_def Let_def e_def[symmetric] m u_def[symmetric]
    using pos nz big by (simp only: if_True if_False)
qed

lemma fl_one: "fl 1 = Fin 1"
  using fl_of_int[of 1] by simp

lemma fl_numeral: "(numeral w :: int) < 2 ^ 53 \<Longrightarrow> fl (numeral w) = Fin (numeral w)"
  using fl_of_int[of "numeral w"] by simp

lemma fl_neg_numeral: "(numeral w :: int) < 2 ^ 53 \<Longrightarrow> fl (- numeral w) = Fin (- numeral w)"
  using fl_of_int[of "- numeral w"] by simp

text \<open>A positive number rounds to a finite number that is not negative, or to Infinity.\<close>

lemma fl_positive:
  assumes "0 < x"
  shows "(\<exists>y. fl x = Fin y \<and> 0 \<le> y) \<or> fl x = PosInf"
proof -
  define u where "u = pow2 (max \<lfloor>log 2 \<bar>x\<bar>\<rfloor> (- 1022) - 52)"
  have upos: "0 < u" unfolding u_def by (rule pow2_pos)
  then have "0 \<le> x / u" using assms by simp
  then have "0 \<le> \<lfloor>x / u\<rfloor>" by simp
  then have "0 \<le> round_even (x / u)"
    using round_even_bounds[of "x / u"] by linarith
  then have "0 \<le> of_int (round_even (x / u)) * u"
    using upos by simp
  then show ?thesis
    using assms unfolding fl_def Let_def u_def[symmetric] by auto
qed


lemma js_div_zero: "d \<noteq> 0 \<Longrightarrow> js_div (Fin 0) (Fin d) = Fin 0"
  by (simp add: fl_zero)

section \<open>The actions as state updates\<close>



lemma Math_round_of_int: "Math_round (of_int k) = k"
  unfolding Math_round_def by linarith

lemma le_zero_remain: "le_zero (remain_at e now) \<Longrightarrow> remain_at e now = Whole 0"
  by (cases "(e, now)" rule: remain_at.cases) (simp_all add: max_def split: if_splits)

lemma clearInterval_eq: "clearInterval h s = s\<lparr>intervals := intervals s - set_option h\<rparr>"
  by (cases h) (simp_all add: clearInterval_def)

lemma effect_running_on:
  "running s \<Longrightarrow> endRef s = Some (deadline now (secondsLeft s)) \<Longrightarrow>
   effect_running now s =
     s\<lparr>timerRef := Some (nextHandle s),
       intervals := insert (nextHandle s) (intervals s - set_option (timerRef s)),
       nextHandle := Suc (nextHandle s)\<rparr>"
  by (simp add: effect_running_def falsy_def clearInterval_eq setInterval_def Let_def)

lemma effect_running_off:
  "\<not> running s \<Longrightarrow>
   effect_running now s = s\<lparr>intervals := intervals s - set_option (timerRef s)\<rparr>"
  by (simp add: effect_running_def clearInterval_eq)

lemma click_start_eq:
  "click_start now s =
     (if le_zero (secondsLeft s) then s
      else if running s
      then s\<lparr>showControls := False, endRef := Some (deadline now (secondsLeft s))\<rparr>
      else s\<lparr>showControls := False, endRef := Some (deadline now (secondsLeft s)),
             running := True, timerRef := Some (nextHandle s),
             intervals := insert (nextHandle s) (intervals s - set_option (timerRef s)),
             nextHandle := Suc (nextHandle s)\<rparr>)"
  by (simp add: click_start_def startTimer_def commit_def cleanup_running_def clearInterval_eq
      effect_running_on)

lemma click_resume_eq:
  "click_resume now s =
     (if le_zero (secondsLeft s) then s
      else if running s then s\<lparr>endRef := Some (deadline now (secondsLeft s))\<rparr>
      else s\<lparr>endRef := Some (deadline now (secondsLeft s)), running := True,
             timerRef := Some (nextHandle s),
             intervals := insert (nextHandle s) (intervals s - set_option (timerRef s)),
             nextHandle := Suc (nextHandle s)\<rparr>)"
  by (simp add: click_resume_def resumeTimer_def commit_def cleanup_running_def
      clearInterval_eq effect_running_on)

lemma click_pause_eq:
  "click_pause s =
     s\<lparr>running := False, endRef := None,
       intervals := intervals s - set_option (timerRef s)\<rparr>"
  by (simp add: click_pause_def pauseTimer_def commit_def cleanup_running_def clearInterval_eq
      effect_running_off)

lemma click_reset_eq:
  "click_reset s =
     s\<lparr>running := False, endRef := None, secondsLeft := Whole 0,
       intervals := intervals s - set_option (timerRef s)\<rparr>"
  by (simp add: click_reset_def resetTimer_def commit_def cleanup_running_def clearInterval_eq
      effect_running_off)

lemma click_set_eq:
  "click_set s =
     (case Number (minutesInput s) of
        Fin n \<Rightarrow>
          if n \<le> 0 then s
          else s\<lparr>secondsLeft :=
                   (case js_mul (Fin n) (Fin 60) of
                      Fin d \<Rightarrow> Whole (Math_round d)
                    | _ \<Rightarrow> Infinity),
                 running := False, endRef := None,
                 intervals := (if running s then intervals s - set_option (timerRef s)
                               else intervals s)\<rparr>
      | _ \<Rightarrow> s)"
  by (cases "Number (minutesInput s)")
     (simp_all add: click_set_def applyMinutes_def commit_def cleanup_running_def
        clearInterval_eq effect_running_off del: js_mul.simps)

lemma timer_fires_eq:
  "timer_fires now s =
     (if intervals s = {} then s
      else if le_zero (remain_at (endRef s) now)
      then s\<lparr>secondsLeft := Whole 0, running := False, endRef := None,
             intervals := intervals s - set_option (timerRef s)\<rparr>
      else s\<lparr>secondsLeft := remain_at (endRef s) now\<rparr>)"
  by (simp add: timer_fires_def tick_def commit_def cleanup_running_def clearInterval_eq
      effect_running_off Let_def le_zero_remain)

section \<open>The invariant of the runs\<close>

lemma consistent_init: "consistent init"
  by (simp add: consistent_def init_def)

lemma positive_not_le_zero: "positive x \<longleftrightarrow> \<not> le_zero x"
  by (cases x) auto

lemma consistent_click_start: "consistent s \<Longrightarrow> consistent (click_start now s)"
  by (auto simp: consistent_def click_start_eq positive_not_le_zero)

lemma consistent_click_resume: "consistent s \<Longrightarrow> consistent (click_resume now s)"
  by (auto simp: consistent_def click_resume_eq positive_not_le_zero)

lemma consistent_click_pause: "consistent s \<Longrightarrow> consistent (click_pause s)"
  by (auto simp: consistent_def click_pause_eq)

lemma consistent_click_reset: "consistent s \<Longrightarrow> consistent (click_reset s)"
  by (auto simp: consistent_def click_reset_eq)

lemma consistent_click_set: "consistent s \<Longrightarrow> consistent (click_set s)"
  by (cases "Number (minutesInput s)")
     (auto simp: consistent_def click_set_eq simp del: js_mul.simps)

lemma consistent_timer_fires: "consistent s \<Longrightarrow> consistent (timer_fires now s)"
  by (auto simp: consistent_def timer_fires_eq positive_not_le_zero)

lemma consistent_step: "consistent s \<Longrightarrow> consistent (step e s)"
proof (cases e)
  case ClickGear
  assume "consistent s"
  with ClickGear show ?thesis by (simp add: consistent_def)
next
  case (TypeMinutes t)
  assume "consistent s"
  with TypeMinutes show ?thesis by (simp add: consistent_def)
qed (simp_all add: consistent_click_start consistent_click_resume consistent_click_pause
      consistent_click_reset consistent_click_set consistent_timer_fires)

lemma reachable_consistent: "reachable s \<Longrightarrow> consistent s"
  by (induction rule: reachable.induct) (simp_all add: consistent_init consistent_step)

lemma reachable_run: "reachable s \<Longrightarrow> reachable (run es s)"
  by (induction es arbitrary: s) (simp_all add: reachable_step)



lemma single_interval:
  "consistent s \<Longrightarrow> finite (intervals s) \<and> card (intervals s) \<le> 1"
proof -
  assume "consistent s"
  then have sub: "intervals s \<subseteq> set_option (timerRef s)"
    by (simp add: consistent_def)
  have fin: "finite (set_option (timerRef s))"
    by (cases "timerRef s") simp_all
  have "card (set_option (timerRef s)) \<le> 1"
    by (cases "timerRef s") simp_all
  with sub fin show ?thesis
    by (meson card_mono finite_subset le_trans)
qed

lemma no_interval_no_fire: "intervals s = {} \<Longrightarrow> timer_fires now s = s"
  by (simp add: timer_fires_def)


section \<open>The countdown between a start and its expiry\<close>







section \<open>The minutes field and what is rendered from it\<close>



lemma Number_positive: "Number t = Fin n \<Longrightarrow> 0 < n \<Longrightarrow> t \<noteq> None"
  by (cases t) (simp_all add: Number_def)

lemma Number_or_field: "t \<noteq> None \<Longrightarrow> Number_or t d = Number t"
  by (cases t) (simp_all add: Number_or_def)

lemma mul60_positive:
  "0 < n \<Longrightarrow> (\<exists>d. js_mul (Fin n) (Fin 60) = Fin d \<and> 0 \<le> d) \<or> js_mul (Fin n) (Fin 60) = PosInf"
  using fl_positive[of "n * 60"] by simp

lemma click_set_accepts:
  "Number (minutesInput s) = Fin n \<Longrightarrow> 0 < n \<Longrightarrow>
   click_set s =
     s\<lparr>secondsLeft :=
         (case js_mul (Fin n) (Fin 60) of Fin d \<Rightarrow> Whole (Math_round d) | _ \<Rightarrow> Infinity),
       running := False, endRef := None,
       intervals := (if running s then intervals s - set_option (timerRef s)
                     else intervals s)\<rparr>"
  by (simp add: click_set_eq del: js_mul.simps)

lemma click_set_rejects:
  "\<not> (\<exists>n. Number (minutesInput s) = Fin n \<and> 0 < n) \<Longrightarrow> click_set s = s"
  by (cases "Number (minutesInput s)") (simp_all add: click_set_eq not_less del: js_mul.simps)




section \<open>The names the upload server gives\<close>

lemma hyphen_no_space: "\<not> white_space 45"
  by (simp add: white_space_def)

lemma digit_no_space: "48 \<le> c \<Longrightarrow> c \<le> 57 \<Longrightarrow> \<not> white_space c"
  unfolding white_space_def by simp

lemma replace_spaces_no_space: "c \<in> set (replace_spaces cs) \<Longrightarrow> \<not> white_space c"
proof (induction cs rule: replace_spaces.induct)
  case 1
  then show ?case by simp
next
  case (2 d ds)
  show ?case
  proof (cases "white_space d")
    case True
    with 2(3) have "c = 45 \<or> c \<in> set (replace_spaces (dropWhile white_space ds))" by simp
    then show ?thesis
    proof
      assume "c = 45"
      then show ?thesis by (simp add: white_space_def)
    next
      assume "c \<in> set (replace_spaces (dropWhile white_space ds))"
      with True show ?thesis by (rule 2(1))
    qed
  next
    case False
    with 2(3) have "c = d \<or> c \<in> set (replace_spaces ds)" by simp
    then show ?thesis
    proof
      assume "c = d"
      with False show ?thesis by simp
    next
      assume "c \<in> set (replace_spaces ds)"
      with False show ?thesis by (rule 2(2))
    qed
  qed
qed

lemma digits_no_space: "c \<in> set (digits n) \<Longrightarrow> \<not> white_space c"
proof (induction n rule: digits.induct)
  case (1 n)
  show ?case
  proof (cases "n < 10")
    case True
    with 1(2) have "c = 48 + n" by (simp add: digits.simps[of n])
    with True show ?thesis by (simp add: digit_no_space)
  next
    case False
    with 1(2) have "c \<in> set (digits (n div 10)) \<or> c = 48 + n mod 10"
      by (auto simp: digits.simps[of n])
    then show ?thesis
    proof
      assume "c \<in> set (digits (n div 10))"
      with False show ?thesis by (rule 1(1))
    next
      assume "c = 48 + n mod 10"
      then show ?thesis by (simp add: digit_no_space)
    qed
  qed
qed

lemma ToString_no_space: "c \<in> set (ToString n) \<Longrightarrow> \<not> white_space c"
  by (auto simp: ToString_def hyphen_no_space digits_no_space split: if_splits)

lemma filter_dropWhile_other:
  "(\<And>x. Q x \<Longrightarrow> \<not> P x) \<Longrightarrow> filter P (dropWhile Q xs) = filter P xs"
  by (induction xs) auto

lemma replace_spaces_keeps:
  "filter (\<lambda>c. \<not> white_space c \<and> c \<noteq> 45) (replace_spaces cs) =
   filter (\<lambda>c. \<not> white_space c \<and> c \<noteq> 45) cs"
proof (induction cs rule: replace_spaces.induct)
  case 1
  show ?case by simp
next
  case (2 c cs)
  show ?case
  proof (cases "white_space c")
    case True
    have "filter (\<lambda>c. \<not> white_space c \<and> c \<noteq> 45) (dropWhile white_space cs) =
          filter (\<lambda>c. \<not> white_space c \<and> c \<noteq> 45) cs"
      by (rule filter_dropWhile_other) simp
    with True 2 show ?thesis by simp
  next
    case False
    with 2 show ?thesis by simp
  qed
qed

lemma replace_spaces_none: "\<forall>c\<in>set cs. \<not> white_space c \<Longrightarrow> replace_spaces cs = cs"
  by (induction cs) simp_all

section \<open>The files multer lets through\<close>

lemma accept_none_left:
  "accept_files now 0 ps =
     (case ps of [] \<Rightarrow> Inr [] | q # qs \<Rightarrow> Inl (LIMIT_UNEXPECTED_FILE (fieldname q)))"
  by (cases ps) simp_all

lemma post_upload_none:
  "post_upload now [] = \<lparr>status = 400, body = Json [(''error'', js ''No file'')]\<rparr>"
  by (simp add: post_upload_def upload_single_def upload_handler_def)

lemma post_upload_image:
  "fieldname p = ''image'' \<Longrightarrow>
   post_upload now [p] =
     \<lparr>status = 200,
      body = Json [(''filename'', js ''uploads/'' @ storage_filename now (originalname p))]\<rparr>"
  by (simp add: post_upload_def upload_single_def upload_handler_def)

lemma post_upload_other:
  "fieldname p \<noteq> ''image'' \<Longrightarrow> post_upload now (p # ps) = \<lparr>status = 500, body = ErrorPage\<rparr>"
  by (simp add: post_upload_def upload_single_def)

lemma post_upload_second:
  "post_upload now (p # q # qs) = \<lparr>status = 500, body = ErrorPage\<rparr>"
  by (simp add: post_upload_def upload_single_def accept_none_left)

text \<open>The equations that evaluate a run on a given state.\<close>

lemmas run_eval = init_def click_set_eq click_start_eq click_pause_eq click_resume_eq
  click_reset_eq timer_fires_eq Number_def Math_round_def fl_zero fl_one fl_numeral
  fl_neg_numeral

section \<open>Some doubles\<close>

text \<open>
  \<open>4.1\<close> as a double, \<open>4.1 * 60 = 245.99999999999997\<close>, and
  \<open>246 / 245.99999999999997 = 1.0000000000000002\<close>.
\<close>

lemma double_4_1: "fl (41 / 10) = Fin (2308094809027379 / 562949953421312)"
  using fl_eval[of "- 50" "41 / 10"] by (simp add: pow2_def round_even_def)

lemma double_4_1_times_60:
  "fl (34621422135410685 / 140737488355328) = Fin (8655355533852671 / 35184372088832)"
  using fl_eval[of "- 45" "34621422135410685 / 140737488355328"]
  by (simp add: pow2_def round_even_def)


text \<open>\<open>1.025\<close> as a double and \<open>1.025 * 60 = 61.49999999999999\<close>.\<close>

lemma double_1_025: "fl (41 / 40) = Fin (2308094809027379 / 2251799813685248)"
  using fl_eval[of "- 52" "41 / 40"] by (simp add: pow2_def round_even_def)

lemma double_1_025_times_60:
  "fl (34621422135410685 / 562949953421312) = Fin (8655355533852671 / 140737488355328)"
  using fl_eval[of "- 47" "34621422135410685 / 562949953421312"]
  by (simp add: pow2_def round_even_def)




text \<open>\<open>1e308\<close> as a double, and sixty times it.\<close>

lemma double_1e308: "fl (10 ^ 308) = Fin (5010420900022432 * 2 ^ 971)"
  using fl_eval_top[of 971 "10 ^ 308"] by (simp add: pow2_def round_even_def)

lemma double_1e308_times_60: "js_mul (Fin (5010420900022432 * 2 ^ 971)) (Fin 60) = PosInf"
proof -
  have "(2::real) ^ 1024 \<le> 5010420900022432 * 2 ^ 971 * 60"
    by simp
  then have "fl (5010420900022432 * 2 ^ 971 * 60) = PosInf"
    by (rule fl_overflow)
  then show ?thesis
    by (simp only: js_mul.simps)
qed

section \<open>The claims\<close>









text \<open>
  C4 (amended). Pause does not read the clock. For every running state that a run
  reaches, it leaves \<open>secondsLeft\<close> as the last firing of the interval published it,
  clears the target, stops the interval and leaves the component not running.
\<close>

theorem pause_keeps_published:
  assumes "reachable s" and "running s"
  shows "secondsLeft (click_pause s) = secondsLeft s \<and>
         endRef (click_pause s) = None \<and>
         \<not> running (click_pause s) \<and>
         intervals (click_pause s) = {} \<and>
         click_pause s = s\<lparr>running := False, endRef := None, intervals := {}\<rparr>"
proof -
  have "consistent s"
    using assms(1) by (rule reachable_consistent)
  then have "intervals s - set_option (timerRef s) = {}"
    by (auto simp: consistent_def)
  then show ?thesis
    by (simp add: click_pause_eq)
qed

text \<open>The default countdown, started at time \<open>0\<close>, after the firings at 250 and 500 ms.\<close>

theorem pause_keeps_published_witness:
  "reachable (run [ClickGear, ClickStart 0, TimerFires 250, TimerFires 500] init) \<and>
   running (run [ClickGear, ClickStart 0, TimerFires 250, TimerFires 500] init) \<and>
   secondsLeft (run [ClickGear, ClickStart 0, TimerFires 250, TimerFires 500] init)
     = Whole 300 \<and>
   secondsLeft (click_pause (run [ClickGear, ClickStart 0, TimerFires 250, TimerFires 500] init))
     = Whole 300 \<and>
   endRef (click_pause (run [ClickGear, ClickStart 0, TimerFires 250, TimerFires 500] init))
     = None \<and>
   intervals (click_pause (run [ClickGear, ClickStart 0, TimerFires 250, TimerFires 500] init))
     = {}"
proof -
  let ?s = "run [ClickGear, ClickStart 0, TimerFires 250, TimerFires 500] init"
  have r: "reachable ?s"
    by (rule reachable_run[OF reachable_init])
  have g: "running ?s"
    by (simp add: run_eval)
  have l: "secondsLeft ?s = Whole 300"
    by (simp add: run_eval)
  from pause_keeps_published[OF r g] r g l show ?thesis by simp
qed

text \<open>
  The claim as it was stated has Pause compute the time left once more. The default
  countdown is started at time \<open>0\<close>, so that the target is 300000; the firing at 500 ms
  publishes \<open>round(299.5) = 300\<close>. A Pause at 600 ms leaves \<open>secondsLeft = 300\<close>, while the
  time left to the target is then \<open>round(299.4) = 299\<close>.
\<close>

theorem pause_recompute_counterexample:
  "running (run [ClickGear, ClickStart 0, TimerFires 250, TimerFires 500] init) \<and>
   endRef (run [ClickGear, ClickStart 0, TimerFires 250, TimerFires 500] init)
     = Some (Whole 300000) \<and>
   secondsLeft (run [ClickGear, ClickStart 0, TimerFires 250, TimerFires 500, ClickGear,
      ClickPause] init) = Whole 300 \<and>
   remain_at (Some (Whole 300000)) 600 = Whole 299 \<and>
   max 0 (Math_round (of_int (300000 - 600) / 1000)) = 299"
  by (simp add: run_eval)



text \<open>
  C6 (amended). Set with a finite number of minutes \<open>n > 0\<close> in the field is accepted
  without an alert: the component is not running, the target is cleared, and
  \<open>secondsLeft\<close> is \<open>Math.round(n * 60)\<close> in the arithmetic of doubles, where the product is
  a finite number that is not negative, or Infinity, which \<open>Math.round\<close> leaves as it is.
  No total is stored: the ring and the warning go on reading the product \<open>n * 60\<close> from
  the field, which is \<open>secondsLeft\<close> when that product is a whole number.
\<close>

theorem configure_sets:
  assumes "Number (minutesInput s) = Fin n" and "0 < n"
  shows "fst (applyMinutes s) = None \<and>
         \<not> running (click_set s) \<and>
         endRef (click_set s) = None \<and>
         ((\<exists>d. js_mul (Fin n) (Fin 60) = Fin d \<and> 0 \<le> d) \<or>
          js_mul (Fin n) (Fin 60) = PosInf) \<and>
         (js_mul (Fin n) (Fin 60) = Fin d \<longrightarrow>
            secondsLeft (click_set s) = Whole (Math_round d) \<and>
            progress_total (click_set s) = Fin d \<and>
            warning_total (click_set s) = Fin d) \<and>
         (js_mul (Fin n) (Fin 60) = PosInf \<longrightarrow> secondsLeft (click_set s) = Infinity) \<and>
         (js_mul (Fin n) (Fin 60) = Fin (of_int T) \<longrightarrow>
            secondsLeft (click_set s) = Whole T \<and>
            progress_total (click_set s) = num (secondsLeft (click_set s)))"
proof -
  have set: "click_set s =
      s\<lparr>secondsLeft :=
          (case js_mul (Fin n) (Fin 60) of Fin d \<Rightarrow> Whole (Math_round d) | _ \<Rightarrow> Infinity),
        running := False, endRef := None,
        intervals := (if running s then intervals s - set_option (timerRef s)
                      else intervals s)\<rparr>"
    using assms by (rule click_set_accepts)
  have field: "minutesInput s \<noteq> None"
    using assms by (rule Number_positive)
  have same: "minutesInput (click_set s) = minutesInput s"
    unfolding set by simp
  have quiet: "fst (applyMinutes s) = None"
    using assms by (simp add: applyMinutes_def del: js_mul.simps)
  have stopped: "\<not> running (click_set s) \<and> endRef (click_set s) = None"
    unfolding set by simp
  have kind: "(\<exists>d. js_mul (Fin n) (Fin 60) = Fin d \<and> 0 \<le> d) \<or>
      js_mul (Fin n) (Fin 60) = PosInf"
    using assms(2) by (rule mul60_positive)
  have pt: "progress_total (click_set s) = js_mul (Fin n) (Fin 60)"
    using field by (simp add: progress_total_def same Number_or_field assms(1) del: js_mul.simps)
  have wt: "warning_total (click_set s) = js_mul (Fin n) (Fin 60)"
    using field by (simp add: warning_total_def same Number_or_field assms(1) del: js_mul.simps)
  have finite: "secondsLeft (click_set s) = Whole (Math_round d) \<and>
      progress_total (click_set s) = Fin d \<and> warning_total (click_set s) = Fin d"
    if d: "js_mul (Fin n) (Fin 60) = Fin d"
  proof -
    have "secondsLeft (click_set s) = Whole (Math_round d)"
      unfolding set d by simp
    then show ?thesis
      by (simp only: pt wt d simp_thms)
  qed
  have unbounded: "secondsLeft (click_set s) = Infinity"
    if i: "js_mul (Fin n) (Fin 60) = PosInf"
    unfolding set i by simp
  have whole: "secondsLeft (click_set s) = Whole T \<and>
      progress_total (click_set s) = num (secondsLeft (click_set s))"
    if T: "js_mul (Fin n) (Fin 60) = Fin (of_int T)"
  proof -
    have l: "secondsLeft (click_set s) = Whole T"
      unfolding set T by (simp add: Math_round_of_int)
    show ?thesis
      unfolding pt l T by simp
  qed
  from quiet stopped kind finite unbounded whole show ?thesis by blast
qed

text \<open>
  Set with \<open>5\<close> in the field gives 300 s. Set with \<open>1.025\<close> gives 61 s, as
  \<open>1.025 * 60 = 61.49999999999999\<close>. Set with \<open>1e308\<close> gives Infinity.
\<close>

theorem configure_sets_witness:
  "Number (minutesInput (run [ClickGear, TypeMinutes (Some (Fin 5))] init)) = Fin 5 \<and>
   (0::real) < 5 \<and> js_mul (Fin 5) (Fin 60) = Fin (of_int 300) \<and>
   fst (applyMinutes (run [ClickGear, TypeMinutes (Some (Fin 5))] init)) = None \<and>
   secondsLeft (click_set (run [ClickGear, TypeMinutes (Some (Fin 5))] init)) = Whole 300 \<and>
   \<not> running (click_set (run [ClickGear, TypeMinutes (Some (Fin 5))] init)) \<and>
   endRef (click_set (run [ClickGear, TypeMinutes (Some (Fin 5))] init)) = None \<and>
   Number (minutesInput (run [ClickGear, TypeMinutes (Some (Fin (1025 / 1000)))] init))
     = Fin (2308094809027379 / 2 ^ 51) \<and>
   js_mul (Fin (2308094809027379 / 2 ^ 51)) (Fin 60) = Fin (8655355533852671 / 2 ^ 47) \<and>
   Math_round (8655355533852671 / 2 ^ 47) = 61 \<and>
   secondsLeft (click_set (run [ClickGear, TypeMinutes (Some (Fin (1025 / 1000)))] init))
     = Whole 61 \<and>
   Number (minutesInput (run [ClickGear, TypeMinutes (Some (Fin (10 ^ 308)))] init))
     = Fin (5010420900022432 * 2 ^ 971) \<and>
   js_mul (Fin (5010420900022432 * 2 ^ 971)) (Fin 60) = PosInf \<and>
   secondsLeft (click_set (run [ClickGear, TypeMinutes (Some (Fin (10 ^ 308)))] init))
     = Infinity"
proof -
  let ?s = "run [ClickGear, TypeMinutes (Some (Fin 5))] init"
  let ?y = "run [ClickGear, TypeMinutes (Some (Fin (1025 / 1000)))] init"
  let ?z = "run [ClickGear, TypeMinutes (Some (Fin (10 ^ 308)))] init"
  have f: "Number (minutesInput ?s) = Fin 5"
    by (simp add: init_def Number_def fl_numeral)
  have m: "(0::real) < 5" by simp
  have t: "js_mul (Fin 5) (Fin 60) = Fin (of_int 300)"
    by (simp add: fl_numeral)
  note five = configure_sets[OF f m, of _ 300]
  from five t have a: "fst (applyMinutes ?s) = None \<and> secondsLeft (click_set ?s) = Whole 300 \<and>
      \<not> running (click_set ?s) \<and> endRef (click_set ?s) = None"
    by blast
  have fy: "Number (minutesInput ?y) = Fin (2308094809027379 / 2 ^ 51)"
    by (simp add: init_def Number_def double_1_025)
  have my: "(0::real) < 2308094809027379 / 2 ^ 51" by simp
  have ty: "js_mul (Fin (2308094809027379 / 2 ^ 51)) (Fin 60) = Fin (8655355533852671 / 2 ^ 47)"
    by (simp add: double_1_025_times_60)
  have ry: "Math_round (8655355533852671 / 2 ^ 47) = 61"
    by (simp add: Math_round_def)
  from configure_sets[OF fy my, of "8655355533852671 / 2 ^ 47"] ty
  have "secondsLeft (click_set ?y) = Whole (Math_round (8655355533852671 / 2 ^ 47))"
    by blast
  then have b: "secondsLeft (click_set ?y) = Whole 61"
    by (simp only: ry)
  have "minutesInput ?z = Some (Fin (10 ^ 308))"
    by (simp add: init_def)
  then have "Number (minutesInput ?z) = fl (10 ^ 308)"
    by (simp only: Number_def option.case jsnum.case)
  then have fz: "Number (minutesInput ?z) = Fin (5010420900022432 * 2 ^ 971)"
    by (simp only: double_1e308)
  have mz: "(0::real) < 5010420900022432 * 2 ^ 971" by simp
  note tz = double_1e308_times_60
  from configure_sets[OF fz mz] tz
  have c: "secondsLeft (click_set ?z) = Infinity"
    by blast
  from f m t a fy ty ry b fz tz c show ?thesis by blast
qed

text \<open>
  The claim as it was stated has a total equal to \<open>secondsLeft\<close>. Set with \<open>4.1\<close> in the
  field gives \<open>secondsLeft = round(245.99999999999997) = 246\<close>, while the ring and the
  warning divide by \<open>4.1 * 60 = 245.99999999999997\<close>.
\<close>

theorem configure_total_counterexample:
  "secondsLeft (run [ClickGear, TypeMinutes (Some (Fin (41 / 10))), ClickSet] init)
     = Whole 246 \<and>
   progress_total (run [ClickGear, TypeMinutes (Some (Fin (41 / 10))), ClickSet] init)
     = Fin (8655355533852671 / 2 ^ 45) \<and>
   warning_total (run [ClickGear, TypeMinutes (Some (Fin (41 / 10))), ClickSet] init)
     = Fin (8655355533852671 / 2 ^ 45) \<and>
   progress_total (run [ClickGear, TypeMinutes (Some (Fin (41 / 10))), ClickSet] init)
     \<noteq> Fin 246"
  by (simp add: run_eval progress_total_def warning_total_def Number_or_def
      double_4_1 double_4_1_times_60)

text \<open>
  C7. Set with anything but a finite number greater than \<open>0\<close> in the field (\<open>0\<close>, a
  negative number, NaN, an infinity, the empty field) is rejected: the handler alerts
  "Enter minutes > 0" and returns at once, and the state after the click is the state
  before it, field by field.
\<close>

theorem configure_rejects:
  assumes "\<not> (\<exists>n. Number (minutesInput s) = Fin n \<and> 0 < n)"
  shows "applyMinutes s = (Some ''Enter minutes > 0'', s) \<and> click_set s = s"
proof -
  have "applyMinutes s = (Some ''Enter minutes > 0'', s)"
    using assms by (cases "Number (minutesInput s)") (simp_all add: applyMinutes_def not_less)
  moreover have "click_set s = s"
    using assms by (rule click_set_rejects)
  ultimately show ?thesis by simp
qed

text \<open>Set with \<open>0\<close>, with \<open>-5\<close> and with NaN in the field.\<close>

theorem configure_rejects_witness:
  "Number (minutesInput (run [ClickGear, TypeMinutes (Some (Fin 0))] init)) = Fin 0 \<and>
   applyMinutes (run [ClickGear, TypeMinutes (Some (Fin 0))] init)
     = (Some ''Enter minutes > 0'', run [ClickGear, TypeMinutes (Some (Fin 0))] init) \<and>
   click_set (run [ClickGear, TypeMinutes (Some (Fin 0))] init)
     = run [ClickGear, TypeMinutes (Some (Fin 0))] init \<and>
   Number (minutesInput (run [ClickGear, TypeMinutes (Some (Fin (- 5)))] init)) = Fin (- 5) \<and>
   applyMinutes (run [ClickGear, TypeMinutes (Some (Fin (- 5)))] init)
     = (Some ''Enter minutes > 0'', run [ClickGear, TypeMinutes (Some (Fin (- 5)))] init) \<and>
   click_set (run [ClickGear, TypeMinutes (Some (Fin (- 5)))] init)
     = run [ClickGear, TypeMinutes (Some (Fin (- 5)))] init \<and>
   Number (minutesInput (run [ClickGear, TypeMinutes (Some NaN)] init)) = NaN \<and>
   applyMinutes (run [ClickGear, TypeMinutes (Some NaN)] init)
     = (Some ''Enter minutes > 0'', run [ClickGear, TypeMinutes (Some NaN)] init) \<and>
   click_set (run [ClickGear, TypeMinutes (Some NaN)] init)
     = run [ClickGear, TypeMinutes (Some NaN)] init"
proof -
  let ?z = "run [ClickGear, TypeMinutes (Some (Fin 0))] init"
  let ?m = "run [ClickGear, TypeMinutes (Some (Fin (- 5)))] init"
  let ?n = "run [ClickGear, TypeMinutes (Some NaN)] init"
  have z: "Number (minutesInput ?z) = Fin 0"
    by (simp add: init_def Number_def fl_zero fl_neg_numeral)
  have m: "Number (minutesInput ?m) = Fin (- 5)"
    by (simp add: init_def Number_def fl_zero fl_neg_numeral)
  have n: "Number (minutesInput ?n) = NaN"
    by (simp add: init_def Number_def fl_zero fl_neg_numeral)
  have hz: "\<not> (\<exists>n. Number (minutesInput ?z) = Fin n \<and> 0 < n)"
    unfolding z by simp
  have hm: "\<not> (\<exists>n. Number (minutesInput ?m) = Fin n \<and> 0 < n)"
    unfolding m by simp
  have hn: "\<not> (\<exists>k. Number (minutesInput ?n) = Fin k \<and> 0 < k)"
    unfolding n by simp
  from configure_rejects[OF hz] configure_rejects[OF hm] configure_rejects[OF hn] z m n
  show ?thesis by blast
qed

text \<open>
  C8. One sampler. When the effect runs with \<open>running\<close> true it clears the interval that
  \<open>timerRef\<close> holds before it sets the new one. In every state that a run reaches, at
  most one interval is live, it is the one \<open>timerRef\<close> holds, and none is live while the
  component is not running; this stays so after two starts or two resumes in a row.
  After Pause and after Reset no interval is live, so that a firing changes nothing.
\<close>

theorem single_sampler:
  assumes "reachable s"
  shows "(running s' \<longrightarrow>
            intervals (effect_running now s') =
              insert (nextHandle s') (intervals s' - set_option (timerRef s'))) \<and>
         finite (intervals s) \<and> card (intervals s) \<le> 1 \<and>
         intervals s \<subseteq> set_option (timerRef s) \<and>
         (\<not> running s \<longrightarrow> intervals s = {}) \<and>
         card (intervals (click_start t2 (click_start t1 s))) \<le> 1 \<and>
         card (intervals (click_resume t2 (click_resume t1 s))) \<le> 1 \<and>
         intervals (click_pause s) = {} \<and>
         intervals (click_reset s) = {} \<and>
         timer_fires t3 (click_pause s) = click_pause s \<and>
         timer_fires t3 (click_reset s) = click_reset s"
proof -
  have c: "consistent s"
    using assms by (rule reachable_consistent)
  have eff: "intervals (effect_running now s') =
      insert (nextHandle s') (intervals s' - set_option (timerRef s'))" if "running s'"
    using that
    by (simp add: effect_running_def clearInterval_eq setInterval_def Let_def split: if_splits)
  have one: "finite (intervals s) \<and> card (intervals s) \<le> 1"
    using c by (rule single_interval)
  have sub: "intervals s \<subseteq> set_option (timerRef s)"
    using c by (simp add: consistent_def)
  have off: "intervals s = {}" if "\<not> running s"
    using c that by (simp add: consistent_def)
  have "consistent (click_start t2 (click_start t1 s))"
    using c by (simp add: consistent_click_start)
  then have starts: "card (intervals (click_start t2 (click_start t1 s))) \<le> 1"
    using single_interval by blast
  have "consistent (click_resume t2 (click_resume t1 s))"
    using c by (simp add: consistent_click_resume)
  then have resumes: "card (intervals (click_resume t2 (click_resume t1 s))) \<le> 1"
    using single_interval by blast
  have gone: "intervals s - set_option (timerRef s) = {}"
    using sub by auto
  have p: "intervals (click_pause s) = {}"
    using gone by (simp add: click_pause_eq)
  have r: "intervals (click_reset s) = {}"
    using gone by (simp add: click_reset_eq)
  have fp: "timer_fires t3 (click_pause s) = click_pause s"
    using p by (rule no_interval_no_fire)
  have fr: "timer_fires t3 (click_reset s) = click_reset s"
    using r by (rule no_interval_no_fire)
  from eff one sub off starts resumes p r fp fr show ?thesis by blast
qed

text \<open>
  The default countdown, started at time \<open>0\<close>: the interval with handle \<open>1\<close> is live, and
  it is the only one after two more starts at 10 and 20 ms.
\<close>

theorem single_sampler_witness:
  "reachable (run [ClickGear, ClickStart 0] init) \<and>
   running (run [ClickGear, ClickStart 0] init) \<and>
   intervals (run [ClickGear, ClickStart 0] init) = {1} \<and>
   card (intervals (run [ClickGear, ClickStart 0] init)) \<le> 1 \<and>
   card (intervals (click_start 20 (click_start 10 (run [ClickGear, ClickStart 0] init)))) \<le> 1 \<and>
   intervals (click_pause (run [ClickGear, ClickStart 0] init)) = {} \<and>
   timer_fires 250 (click_pause (run [ClickGear, ClickStart 0] init))
     = click_pause (run [ClickGear, ClickStart 0] init)"
proof -
  let ?s = "run [ClickGear, ClickStart 0] init"
  have r: "reachable ?s"
    by (rule reachable_run[OF reachable_init])
  have g: "running ?s"
    by (simp add: run_eval)
  have i: "intervals ?s = {1}"
    by (simp add: run_eval)
  from single_sampler[OF r, of _ _ 20 10 250] r g i show ?thesis by blast
qed

text \<open>
  C9 (amended). The upload route. With one file in the request, in the field \<open>image\<close>, the
  answer to \<open>POST /upload\<close> has status 200 and the JSON \<open>{filename: "uploads/<name>"}\<close>,
  where \<open>name\<close> is the one the storage generated; with no file in the request it has
  status 400 and the JSON \<open>{error: "No file"}\<close>. Every other request, that is one with a
  file in another field or with a second file, is answered with status 500 and no JSON,
  whether or not the field \<open>image\<close> has a file. The generated name is the time in decimal,
  a hyphen, and the original name with every run of white space replaced by one hyphen:
  it has no white space in it, the other characters of the original name are kept in
  their order, and an original name without white space is kept as it is.
\<close>

theorem upload_responses:
  "post_upload now [\<lparr>fieldname = ''image'', originalname = name\<rparr>] =
     \<lparr>status = 200,
      body = Json [(''filename'', js ''uploads/'' @ storage_filename now name)]\<rparr> \<and>
   post_upload now [] = \<lparr>status = 400, body = Json [(''error'', js ''No file'')]\<rparr> \<and>
   (parts \<noteq> [] \<and> (\<forall>name'. parts \<noteq> [\<lparr>fieldname = ''image'', originalname = name'\<rparr>]) \<longrightarrow>
      post_upload now parts = \<lparr>status = 500, body = ErrorPage\<rparr>) \<and>
   storage_filename now name = ToString now @ js ''-'' @ replace_spaces name \<and>
   (\<forall>c\<in>set (storage_filename now name). \<not> white_space c) \<and>
   filter (\<lambda>c. \<not> white_space c \<and> c \<noteq> 45) (replace_spaces name) =
     filter (\<lambda>c. \<not> white_space c \<and> c \<noteq> 45) name \<and>
   ((\<forall>c\<in>set name. \<not> white_space c) \<longrightarrow> replace_spaces name = name)"
proof -
  have ok: "post_upload now [\<lparr>fieldname = ''image'', originalname = name\<rparr>] =
      \<lparr>status = 200,
       body = Json [(''filename'', js ''uploads/'' @ storage_filename now name)]\<rparr>"
    using post_upload_image[of "\<lparr>fieldname = ''image'', originalname = name\<rparr>" now]
    by simp
  have missing: "post_upload now [] = \<lparr>status = 400, body = Json [(''error'', js ''No file'')]\<rparr>"
    by (rule post_upload_none)
  have failed: "post_upload now parts = \<lparr>status = 500, body = ErrorPage\<rparr>"
    if ne: "parts \<noteq> []"
      and other: "\<forall>name'. parts \<noteq> [\<lparr>fieldname = ''image'', originalname = name'\<rparr>]"
  proof -
    from ne obtain p ps where parts: "parts = p # ps"
      by (cases parts) auto
    show ?thesis
    proof (cases ps)
      case Nil
      have "fieldname p \<noteq> ''image''"
      proof
        assume "fieldname p = ''image''"
        then have "p = \<lparr>fieldname = ''image'', originalname = originalname p\<rparr>"
          by (cases p) simp
        with parts Nil other show False by blast
      qed
      then show ?thesis
        unfolding parts by (rule post_upload_other)
    next
      case (Cons q qs)
      show ?thesis
        unfolding parts Cons by (rule post_upload_second)
    qed
  qed
  have shape: "storage_filename now name = ToString now @ js ''-'' @ replace_spaces name"
    by (simp add: storage_filename_def)
  have "\<not> white_space c" if "c \<in> set (storage_filename now name)" for c
  proof -
    from that have "c \<in> set (ToString now) \<or> c = 45 \<or> c \<in> set (replace_spaces name)"
      by (auto simp: storage_filename_def js_def)
    then show ?thesis
      using ToString_no_space hyphen_no_space replace_spaces_no_space by blast
  qed
  then have clean: "\<forall>c\<in>set (storage_filename now name). \<not> white_space c"
    by blast
  have kept: "filter (\<lambda>c. \<not> white_space c \<and> c \<noteq> 45) (replace_spaces name) =
      filter (\<lambda>c. \<not> white_space c \<and> c \<noteq> 45) name"
    by (rule replace_spaces_keeps)
  have same: "replace_spaces name = name" if "\<forall>c\<in>set name. \<not> white_space c"
    using that by (rule replace_spaces_none)
  from ok missing failed shape clean kept same show ?thesis by blast
qed

text \<open>
  At time 1700000000000 the file \<open>my  photo 1.png\<close> in the field \<open>image\<close> is stored as
  \<open>1700000000000-my-photo-1.png\<close>; two files in the field \<open>image\<close> are answered with 500;
  the name \<open>logo\<close> has no white space in it.
\<close>

theorem upload_responses_witness:
  "post_upload 1700000000000 [\<lparr>fieldname = ''image'', originalname = js ''my  photo 1.png''\<rparr>] =
     \<lparr>status = 200,
      body = Json [(''filename'', js ''uploads/1700000000000-my-photo-1.png'')]\<rparr> \<and>
   post_upload 1700000000000 [] = \<lparr>status = 400, body = Json [(''error'', js ''No file'')]\<rparr> \<and>
   post_upload 1700000000000
     [\<lparr>fieldname = ''image'', originalname = js ''a.png''\<rparr>,
      \<lparr>fieldname = ''image'', originalname = js ''b.png''\<rparr>]
     = \<lparr>status = 500, body = ErrorPage\<rparr> \<and>
   \<not> white_space 108 \<and> \<not> white_space 111 \<and> \<not> white_space 103 \<and>
   replace_spaces [108, 111, 103, 111] = [108, 111, 103, 111]"
proof -
  let ?two = "[\<lparr>fieldname = ''image'', originalname = js ''a.png''\<rparr>,
      \<lparr>fieldname = ''image'', originalname = js ''b.png''\<rparr>]"
  have name: "storage_filename 1700000000000 (js ''my  photo 1.png'')
      = js ''1700000000000-my-photo-1.png''"
    by (simp add: storage_filename_def ToString_def digits.simps js_def white_space_def)
  have l: "\<not> white_space 108 \<and> \<not> white_space 111 \<and> \<not> white_space 103"
    by (simp add: white_space_def)
  then have all: "\<forall>c\<in>set [108, 111, 103, 111]. \<not> white_space c"
    by simp
  have two: "?two \<noteq> [] \<and> (\<forall>name'. ?two \<noteq> [\<lparr>fieldname = ''image'', originalname = name'\<rparr>])"
    by simp
  note spaced = upload_responses[of 1700000000000 "js ''my  photo 1.png''"]
  note plain = upload_responses[of 1700000000000 "[108, 111, 103, 111]" ?two]
  note ok = spaced[THEN conjunct1]
  note missing = plain[THEN conjunct2, THEN conjunct1]
  note failed = plain[THEN conjunct2, THEN conjunct2, THEN conjunct1, THEN mp, OF two]
  note same = plain[THEN conjunct2, THEN conjunct2, THEN conjunct2, THEN conjunct2,
      THEN conjunct2, THEN conjunct2, THEN mp, OF all]
  have a: "post_upload 1700000000000
        [\<lparr>fieldname = ''image'', originalname = js ''my  photo 1.png''\<rparr>] =
      \<lparr>status = 200,
       body = Json [(''filename'', js ''uploads/1700000000000-my-photo-1.png'')]\<rparr>"
    unfolding ok name by (simp add: js_def)
  show ?thesis
    using a missing failed l same by (intro conjI) simp_all
qed

text \<open>
  The claim as it was stated answers 400 whenever the field \<open>image\<close> has no file. A
  request whose one file is in the field \<open>photo\<close> has no file in the field \<open>image\<close>, and the
  answer is 500 and not 400: multer ends the upload with \<open>LIMIT_UNEXPECTED_FILE\<close>, and the
  handler of the route is not called.
\<close>

theorem upload_absent_counterexample:
  "upload_single 1700000000000 [\<lparr>fieldname = ''photo'', originalname = js ''a.png''\<rparr>]
     = Inl (LIMIT_UNEXPECTED_FILE ''photo'') \<and>
   post_upload 1700000000000 [\<lparr>fieldname = ''photo'', originalname = js ''a.png''\<rparr>]
     = \<lparr>status = 500, body = ErrorPage\<rparr> \<and>
   status (post_upload 1700000000000 [\<lparr>fieldname = ''photo'', originalname = js ''a.png''\<rparr>])
     \<noteq> 400"
  by (simp add: post_upload_def upload_single_def)



end
